theory Spec2Isabelle
  imports Main
begin

section \<open>Data model\<close>

text \<open>
  The two programs \<^verbatim>\<open>PostNews.py\<close> (thumbnails loaded inside the display step) and
  \<^verbatim>\<open>PostNewsTrial.py\<close> (one \<^verbatim>\<open>LoadImageThread\<close> per row) share their structure.
  Functions that are textually identical in both files are modelled once; the functions
  that differ carry the suffix \<open>_trial\<close> for \<^verbatim>\<open>PostNewsTrial.py\<close>.

  A Python exception is a value; a computation that may raise returns
  \<open>py_exception + 'a\<close> with \<open>Inl\<close> for the raised exception. Only subclasses of
  \<^verbatim>\<open>Exception\<close> are modelled, which is what \<^verbatim>\<open>except Exception\<close> catches. An exception
  carries the text that \<^verbatim>\<open>str(e)\<close> returns for it; for a \<^verbatim>\<open>KeyError\<close> that text is the
  printed form of the key, quotes included.
\<close>

datatype py_exception =
    AttributeError string
  | KeyError string
  | IndexError string
  | RuntimeError string
  | OtherException string

fun str :: "py_exception \<Rightarrow> string" where
  "str (AttributeError m) = m"
| "str (KeyError m) = m"
| "str (IndexError m) = m"
| "str (RuntimeError m) = m"
| "str (OtherException m) = m"

text \<open>
  A computation of the whole program ends in a state, with an exception that nothing
  caught, or with the process aborted by Qt, which no handler can catch.
\<close>

datatype failure = Raised py_exception | Aborted string

text \<open>The dictionary built by \<^verbatim>\<open>FetchNewsThread.run\<close> for each entry.\<close>

record news_item =
  title :: string
  link :: string
  image_url :: "string option"

text \<open>
  A feed entry as \<^verbatim>\<open>feedparser\<close> delivers it. Reading an attribute that the entry does
  not have raises \<^verbatim>\<open>AttributeError\<close>, so each attribute is optional.
\<close>

record entry =
  entry_title :: "string option"
  entry_link :: "string option"
  entry_description :: "string option"

definition getattr :: "string \<Rightarrow> 'a option \<Rightarrow> py_exception + 'a" where
  "getattr name v =
     (case v of
        None \<Rightarrow> Inl (AttributeError (''object has no attribute '' @ [CHR 0x27] @ name @ [CHR 0x27]))
      | Some x \<Rightarrow> Inr x)"

text \<open>
  A parsed description. \<^verbatim>\<open>soup.find('img')\<close> searches the elements in document order,
  so the document is the list of its elements in that order; an element has a name and
  its attribute dictionary.
\<close>

record tag =
  tag_name :: string
  attrs :: "(string \<times> string) list"

type_synonym soup = "tag list"

text \<open>\<^verbatim>\<open>soup.find(name)\<close>: the first element with that name, or \<^verbatim>\<open>None\<close>.\<close>

fun soup_find :: "string \<Rightarrow> soup \<Rightarrow> tag option" where
  "soup_find name [] = None"
| "soup_find name (t # ts) = (if tag_name t = name then Some t else soup_find name ts)"

text \<open>
  \<^verbatim>\<open>img_tag['src']\<close>: the value of the attribute, or \<^verbatim>\<open>KeyError('src')\<close> when the
  element lacks it, whose text is the key in single quotes.
\<close>

definition tag_src :: "tag \<Rightarrow> py_exception + string" where
  "tag_src t =
     (case map_of (attrs t) ''src'' of
        None \<Rightarrow> Inl (KeyError ([CHR 0x27] @ ''src'' @ [CHR 0x27]))
      | Some v \<Rightarrow> Inr v)"

section \<open>The feed fetcher\<close>

text \<open>
  \<open>bs\<close> is \<^verbatim>\<open>BeautifulSoup(_, 'html.parser')\<close>, a parameter, which returns the parsed
  document or raises. \<open>feed\<close> is the outcome of \<^verbatim>\<open>feedparser.parse(url)\<close> as \<^verbatim>\<open>run\<close>
  sees it: the list \<^verbatim>\<open>feed.entries\<close>, or an exception raised by the call.
\<close>

type_synonym parser = "string \<Rightarrow> py_exception + soup"

text \<open>
  Lines 25 to 27 of \<^verbatim>\<open>PostNews.py\<close>: the description is read, parsed, searched for the
  first \<^verbatim>\<open>img\<close> element, and that element's \<^verbatim>\<open>src\<close> is read.
\<close>

definition extract_image_url :: "parser \<Rightarrow> entry \<Rightarrow> py_exception + string option" where
  "extract_image_url bs e =
     (case getattr ''description'' (entry_description e) of
        Inl x \<Rightarrow> Inl x
      | Inr d \<Rightarrow>
          (case bs d of
             Inl x \<Rightarrow> Inl x
           | Inr sp \<Rightarrow>
               (case soup_find ''img'' sp of
                  None \<Rightarrow> Inr None
                | Some img_tag \<Rightarrow>
                    (case tag_src img_tag of
                       Inl x \<Rightarrow> Inl x
                     | Inr v \<Rightarrow> Inr (Some v)))))"

text \<open>
  Lines 25 to 31 of \<^verbatim>\<open>PostNewsTrial.py\<close>: the same three statements inside their own
  \<^verbatim>\<open>try\<close>, whose handler sets \<^verbatim>\<open>image_url = None\<close>.
\<close>

definition extract_image_url_trial :: "parser \<Rightarrow> entry \<Rightarrow> py_exception + string option" where
  "extract_image_url_trial bs e =
     (case extract_image_url bs e of Inl x \<Rightarrow> Inr None | Inr u \<Rightarrow> Inr u)"

text \<open>
  The body of the \<^verbatim>\<open>for entry in feed.entries\<close> loop, with the list \<^verbatim>\<open>news_items\<close>
  built so far as accumulator. \<open>ex\<close> is the extraction of the variant.
\<close>

fun entries_loop ::
  "(entry \<Rightarrow> py_exception + string option) \<Rightarrow> entry list \<Rightarrow> news_item list
     \<Rightarrow> py_exception + news_item list" where
  "entries_loop ex [] news_items = Inr news_items"
| "entries_loop ex (e # es) news_items =
     (case getattr ''title'' (entry_title e) of
        Inl x \<Rightarrow> Inl x
      | Inr t \<Rightarrow>
          (case getattr ''link'' (entry_link e) of
             Inl x \<Rightarrow> Inl x
           | Inr l \<Rightarrow>
               (case ex e of
                  Inl x \<Rightarrow> Inl x
                | Inr u \<Rightarrow>
                    entries_loop ex es
                      (news_items @ [\<lparr>title = t, link = l, image_url = u\<rparr>]))))"

text \<open>The \<^verbatim>\<open>try\<close> block of \<^verbatim>\<open>FetchNewsThread.run\<close>, up to the value it emits.\<close>

definition run_try ::
  "(entry \<Rightarrow> py_exception + string option) \<Rightarrow> py_exception + entry list
     \<Rightarrow> py_exception + news_item list" where
  "run_try ex feed =
     (case feed of Inl x \<Rightarrow> Inl x | Inr entries \<Rightarrow> entries_loop ex entries [])"

definition error_item :: "py_exception \<Rightarrow> news_item" where
  "error_item e = \<lparr>title = ''Error fetching news: '' @ str e, link = [], image_url = None\<rparr>"

text \<open>
  \<^verbatim>\<open>FetchNewsThread.run\<close>. The result is the exception that leaves \<^verbatim>\<open>run\<close>, or the
  list of the payloads that \<^verbatim>\<open>news_fetched.emit\<close> sent, in order.
\<close>

definition run_with ::
  "(entry \<Rightarrow> py_exception + string option) \<Rightarrow> py_exception + entry list
     \<Rightarrow> py_exception + news_item list list" where
  "run_with ex feed =
     (case run_try ex feed of
        Inr news_items \<Rightarrow> Inr [news_items]
      | Inl e \<Rightarrow> Inr [[error_item e]])"

definition run :: "parser \<Rightarrow> py_exception + entry list \<Rightarrow> py_exception + news_item list list" where
  "run bs feed = run_with (extract_image_url bs) feed"

definition run_trial :: "parser \<Rightarrow> py_exception + entry list \<Rightarrow> py_exception + news_item list list" where
  "run_trial bs feed = run_with (extract_image_url_trial bs) feed"

text \<open>
  What \<^verbatim>\<open>feedparser.parse\<close> does with the feed URL. The library catches the failure of
  the request and the errors of its XML parser and reports them in the fields
  \<^verbatim>\<open>bozo\<close> and \<^verbatim>\<open>bozo_exception\<close> of its result, which the program never reads; it
  does not raise. \<^verbatim>\<open>feed.entries\<close> is then empty for a request that failed, and holds
  the entries read before the error for a document that is not well formed.
\<close>

datatype resource =
    Unreachable string
  | Document bool "entry list"

fun feedparser_parse :: "resource \<Rightarrow> py_exception + entry list" where
  "feedparser_parse (Unreachable reason) = Inr []"
| "feedparser_parse (Document well_formed entries) = Inr entries"

section \<open>Images\<close>

text \<open>
  \<^verbatim>\<open>requests.get\<close> and the image decoder behind \<^verbatim>\<open>QPixmap.loadFromData\<close> are
  parameters: \<open>http\<close> returns the response or raises, and \<open>dec\<close> says whether the bytes
  decode. A pixmap is null, or the decoded bytes, or the result of \<^verbatim>\<open>scaled\<close> on a
  pixmap that is not null; the scaling itself is Qt's and is kept symbolic.
\<close>

record response =
  status_code :: int
  content :: "nat list"

type_synonym requests_get = "string \<Rightarrow> py_exception + response"

type_synonym decoder = "nat list \<Rightarrow> bool"

datatype aspect_ratio_mode = IgnoreAspectRatio | KeepAspectRatio | KeepAspectRatioByExpanding

datatype pixmap =
    NullPixmap
  | Loaded "nat list"
  | Scaled pixmap int int aspect_ratio_mode

fun isNull :: "pixmap \<Rightarrow> bool" where
  "isNull NullPixmap = True"
| "isNull (Loaded d) = False"
| "isNull (Scaled p w h m) = isNull p"

text \<open>\<^verbatim>\<open>image = QPixmap(); image.loadFromData(data)\<close>: the pixmap stays null when decoding fails.\<close>

definition loadFromData :: "decoder \<Rightarrow> nat list \<Rightarrow> pixmap" where
  "loadFromData dec d = (if dec d then Loaded d else NullPixmap)"

text \<open>\<^verbatim>\<open>image.scaled(w, h, mode)\<close>: a null pixmap scales to a null pixmap.\<close>

definition scaled :: "pixmap \<Rightarrow> int \<Rightarrow> int \<Rightarrow> aspect_ratio_mode \<Rightarrow> pixmap" where
  "scaled p w h m = (if isNull p then NullPixmap else Scaled p w h m)"

section \<open>Widgets and the application state\<close>

text \<open>
  A label shows nothing, a text or a pixmap. Its \<open>mouseDoubleClickEvent\<close> is the link
  that the installed handler \<^verbatim>\<open>lambda event: self.open_link(link)\<close> holds, or \<open>None\<close>
  when the program installed no handler.
\<close>

datatype label_content = NoContent | Text string | Pixmap pixmap

record qlabel =
  label_content :: label_content
  mouseDoubleClickEvent :: "string option"

record qwidget =
  image_label :: qlabel
  title_label :: qlabel
  widget_link :: string
  styleSheet :: string
  deleteLater :: bool

text \<open>
  Threads. \<^verbatim>\<open>QThread.start\<close> executes \<^verbatim>\<open>run\<close> in a new thread. A slot connected with
  the default connection type is called directly, in the emitting thread, when that is
  the thread the receiver lives in, and is otherwise queued and executed in the
  receiver's thread. Every function that performs a network request takes the thread
  that executes it and records the request.
\<close>

datatype thread = MainThread | WorkerThread

definition slot_thread :: "thread \<Rightarrow> thread \<Rightarrow> thread" where
  "slot_thread emitting receiver = (if emitting = receiver then emitting else receiver)"

text \<open>
  A started \<^verbatim>\<open>LoadImageThread\<close> with its two attributes, and the widget whose
  \<^verbatim>\<open>image_label\<close> the lambda connected to \<^verbatim>\<open>image_loaded\<close> holds.
\<close>

record load_image_thread =
  thread_image_url :: "string option"
  thread_link :: string
  thread_label :: nat

text \<open>
  Widgets are objects: \<open>widgets\<close> maps an object identity to the object, \<open>allocated\<close>
  counts the widgets created so far, and \<open>news_widgets\<close> holds identities. \<open>threads\<close>
  are the image threads started and not yet finished, \<open>ensured_visible\<close> the widget
  last passed to \<^verbatim>\<open>ensureWidgetVisible\<close>, \<open>opened\<close> the calls of \<^verbatim>\<open>webbrowser.open\<close>
  and \<open>network\<close> the network requests, each with the thread that made it.
\<close>

record app =
  widgets :: "nat \<Rightarrow> qwidget option"
  allocated :: nat
  news_widgets :: "nat list"
  selected_index :: int
  threads :: "load_image_thread list"
  ensured_visible :: "nat option"
  opened :: "string list"
  network :: "(thread \<times> string) list"

text \<open>The state after \<^verbatim>\<open>initUI\<close> has set its two variables.\<close>

definition initUI :: app where
  "initUI = \<lparr>widgets = (\<lambda>_. None), allocated = 0, news_widgets = [], selected_index = 0,
     threads = [], ensured_visible = None, opened = [], network = []\<rparr>"

definition update_widget :: "nat \<Rightarrow> (qwidget \<Rightarrow> qwidget) \<Rightarrow> app \<Rightarrow> app" where
  "update_widget w f a =
     (case widgets a w of
        None \<Rightarrow> a
      | Some wd \<Rightarrow> a\<lparr>widgets := (widgets a)(w \<mapsto> f wd)\<rparr>)"

section \<open>Opening links\<close>

definition open_link :: "string \<Rightarrow> app \<Rightarrow> app" where
  "open_link l a = (if l \<noteq> [] then a\<lparr>opened := opened a @ [l]\<rparr> else a)"

text \<open>A double click on a label runs the handler installed on it, if any.\<close>

definition double_click :: "qlabel \<Rightarrow> app \<Rightarrow> app" where
  "double_click lb a =
     (case mouseDoubleClickEvent lb of None \<Rightarrow> a | Some l \<Rightarrow> open_link l a)"

definition double_click_title :: "nat \<Rightarrow> app \<Rightarrow> app" where
  "double_click_title w a =
     (case widgets a w of None \<Rightarrow> a | Some wd \<Rightarrow> double_click (title_label wd) a)"

definition double_click_image :: "nat \<Rightarrow> app \<Rightarrow> app" where
  "double_click_image w a =
     (case widgets a w of None \<Rightarrow> a | Some wd \<Rightarrow> double_click (image_label wd) a)"

section \<open>Building rows\<close>

text \<open>
  \<^verbatim>\<open>create_news_widget\<close> of \<^verbatim>\<open>PostNews.py\<close>, lines 105 to 119: the image label, and
  the network requests made for it by the executing thread \<open>th\<close>. When the request
  raises or the status is not 200 the label keeps no content.
\<close>

definition create_image_label ::
  "requests_get \<Rightarrow> decoder \<Rightarrow> thread \<Rightarrow> news_item \<Rightarrow> qlabel \<times> (thread \<times> string) list" where
  "create_image_label http dec th news_item =
     (case image_url news_item of
        None \<Rightarrow> (\<lparr>label_content = Text ''No image available'', mouseDoubleClickEvent = None\<rparr>, [])
      | Some u \<Rightarrow>
          if u = [] then
            (\<lparr>label_content = Text ''No image available'', mouseDoubleClickEvent = None\<rparr>, [])
          else
            (case http u of
               Inl e \<Rightarrow> (\<lparr>label_content = NoContent, mouseDoubleClickEvent = None\<rparr>, [(th, u)])
             | Inr r \<Rightarrow>
                 if status_code r = 200 then
                   (\<lparr>label_content =
                       Pixmap (scaled (loadFromData dec (content r)) 100 100 KeepAspectRatio),
                     mouseDoubleClickEvent = Some (link news_item)\<rparr>, [(th, u)])
                 else (\<lparr>label_content = NoContent, mouseDoubleClickEvent = None\<rparr>, [(th, u)])))"

definition new_widget :: "qlabel \<Rightarrow> news_item \<Rightarrow> qwidget" where
  "new_widget il news_item =
     \<lparr>image_label = il,
      title_label = \<lparr>label_content = Text (title news_item),
                     mouseDoubleClickEvent = Some (link news_item)\<rparr>,
      widget_link = link news_item,
      styleSheet = [],
      deleteLater = False\<rparr>"

text \<open>Both return the identity of the new widget and the new state.\<close>

definition create_news_widget ::
  "requests_get \<Rightarrow> decoder \<Rightarrow> thread \<Rightarrow> news_item \<Rightarrow> app \<Rightarrow> nat \<times> app" where
  "create_news_widget http dec th news_item a =
     (case create_image_label http dec th news_item of
        (il, requests) \<Rightarrow>
          (allocated a,
           a\<lparr>widgets := (widgets a)(allocated a \<mapsto> new_widget il news_item),
             allocated := Suc (allocated a),
             network := network a @ requests\<rparr>))"

text \<open>
  \<^verbatim>\<open>create_news_widget\<close> of \<^verbatim>\<open>PostNewsTrial.py\<close> up to line 164: the widget with a
  placeholder text, and a started \<^verbatim>\<open>LoadImageThread\<close> connected to the new image label.
\<close>

definition create_news_widget_started :: "news_item \<Rightarrow> app \<Rightarrow> nat \<times> app" where
  "create_news_widget_started news_item a =
     (allocated a,
      a\<lparr>widgets := (widgets a)(allocated a \<mapsto>
           new_widget \<lparr>label_content = Text ''Loading image...'', mouseDoubleClickEvent = None\<rparr>
             news_item),
        allocated := Suc (allocated a),
        threads := threads a @
          [\<lparr>thread_image_url = image_url news_item, thread_link = link news_item,
            thread_label = allocated a\<rparr>]\<rparr>)"

text \<open>
  Line 166, \<^verbatim>\<open>return widget\<close>. The local \<^verbatim>\<open>load_image_thread\<close> is the only reference to
  the thread object: it has no parent, nothing stores it, and the connected lambda holds
  \<^verbatim>\<open>self\<close> and \<^verbatim>\<open>image_label\<close> only. The object is therefore destroyed when the
  function returns, and a thread that is still running then makes Qt abort the process.
  \<^verbatim>\<open>start()\<close> was called two lines earlier, so the thread is running.
\<close>

definition create_news_widget_trial :: "news_item \<Rightarrow> app \<Rightarrow> failure + nat \<times> app" where
  "create_news_widget_trial news_item a =
     (case create_news_widget_started news_item a of
        (widget, a') \<Rightarrow>
          if threads a' = [] then Inr (widget, a')
          else Inl (Aborted ''QThread: Destroyed while thread is still running''))"

section \<open>Highlighting, display and keys\<close>

text \<open>The loop of \<^verbatim>\<open>update_highlight\<close> over \<^verbatim>\<open>enumerate(self.news_widgets)\<close>, from index \<open>i\<close>.\<close>

fun highlight_loop :: "nat list \<Rightarrow> int \<Rightarrow> app \<Rightarrow> app" where
  "highlight_loop [] i a = a"
| "highlight_loop (w # ws) i a =
     highlight_loop ws (i + 1)
       (update_widget w
          (\<lambda>wd. wd\<lparr>styleSheet :=
             (if i = selected_index a then ''background-color: lightblue;''
              else ''background-color: none;'')\<rparr>) a)"

definition update_highlight :: "app \<Rightarrow> app" where
  "update_highlight a = highlight_loop (news_widgets a) 0 a"

text \<open>The first loop of \<^verbatim>\<open>display_news\<close>: \<^verbatim>\<open>widget.deleteLater()\<close> for every old row.\<close>

fun delete_loop :: "nat list \<Rightarrow> app \<Rightarrow> app" where
  "delete_loop [] a = a"
| "delete_loop (w # ws) a = delete_loop ws (update_widget w (\<lambda>wd. wd\<lparr>deleteLater := True\<rparr>) a)"

text \<open>The second loop: one widget per item, appended to \<^verbatim>\<open>self.news_widgets\<close>.\<close>

fun items_loop :: "(news_item \<Rightarrow> app \<Rightarrow> nat \<times> app) \<Rightarrow> news_item list \<Rightarrow> app \<Rightarrow> app" where
  "items_loop create [] a = a"
| "items_loop create (item # items) a =
     (case create item a of
        (w, a') \<Rightarrow> items_loop create items (a'\<lparr>news_widgets := news_widgets a' @ [w]\<rparr>))"

definition display_news_with :: "(news_item \<Rightarrow> app \<Rightarrow> nat \<times> app) \<Rightarrow> news_item list \<Rightarrow> app \<Rightarrow> app" where
  "display_news_with create news_items a =
     (let a1 = (delete_loop (news_widgets a) a)\<lparr>news_widgets := []\<rparr>;
          a2 = items_loop create news_items a1
      in if news_widgets a2 \<noteq> [] then update_highlight (a2\<lparr>selected_index := 0\<rparr>) else a2)"

definition display_news ::
  "requests_get \<Rightarrow> decoder \<Rightarrow> thread \<Rightarrow> news_item list \<Rightarrow> app \<Rightarrow> app" where
  "display_news http dec th = display_news_with (create_news_widget http dec th)"

text \<open>\<^verbatim>\<open>display_news\<close> of \<^verbatim>\<open>PostNewsTrial.py\<close>, where building a row may end the process.\<close>

fun items_loop_trial :: "news_item list \<Rightarrow> app \<Rightarrow> failure + app" where
  "items_loop_trial [] a = Inr a"
| "items_loop_trial (item # items) a =
     (case create_news_widget_trial item a of
        Inl f \<Rightarrow> Inl f
      | Inr (w, a') \<Rightarrow> items_loop_trial items (a'\<lparr>news_widgets := news_widgets a' @ [w]\<rparr>))"

definition display_news_trial :: "news_item list \<Rightarrow> app \<Rightarrow> failure + app" where
  "display_news_trial news_items a =
     (case items_loop_trial news_items ((delete_loop (news_widgets a) a)\<lparr>news_widgets := []\<rparr>) of
        Inl f \<Rightarrow> Inl f
      | Inr a2 \<Rightarrow>
          Inr (if news_widgets a2 \<noteq> [] then update_highlight (a2\<lparr>selected_index := 0\<rparr>) else a2))"

text \<open>
  Indexing a Python list: an index from 0 up to the length reads from the front, one
  from minus the length up to -1 reads from the back, any other raises.
\<close>

definition py_getitem :: "'a list \<Rightarrow> int \<Rightarrow> py_exception + 'a" where
  "py_getitem xs i =
     (if 0 \<le> i \<and> i < int (length xs) then Inr (xs ! nat i)
      else if i < 0 \<and> - int (length xs) \<le> i then Inr (xs ! nat (int (length xs) + i))
      else Inl (IndexError ''list index out of range''))"

definition scroll_to_selected :: "app \<Rightarrow> py_exception + app" where
  "scroll_to_selected a =
     (case py_getitem (news_widgets a) (selected_index a) of
        Inl e \<Rightarrow> Inl e
      | Inr selected_widget \<Rightarrow> Inr (a\<lparr>ensured_visible := Some selected_widget\<rparr>))"

datatype key = Key_Down | Key_Up | Key_Other

fun keyPressEvent :: "key \<Rightarrow> app \<Rightarrow> py_exception + app" where
  "keyPressEvent Key_Down a =
     (if selected_index a < int (length (news_widgets a)) - 1
      then scroll_to_selected (update_highlight (a\<lparr>selected_index := selected_index a + 1\<rparr>))
      else Inr a)"
| "keyPressEvent Key_Up a =
     (if selected_index a > 0
      then scroll_to_selected (update_highlight (a\<lparr>selected_index := selected_index a - 1\<rparr>))
      else Inr a)"
| "keyPressEvent Key_Other a = Inr a"

text \<open>The same key pressed \<open>n\<close> times; an exception ends the sequence.\<close>

fun key_presses :: "key \<Rightarrow> nat \<Rightarrow> app \<Rightarrow> py_exception + app" where
  "key_presses k 0 a = Inr a"
| "key_presses k (Suc n) a =
     (case keyPressEvent k a of Inl e \<Rightarrow> Inl e | Inr a' \<Rightarrow> key_presses k n a')"

section \<open>Loading images in threads\<close>

text \<open>
  The \<^verbatim>\<open>try\<close> block of \<^verbatim>\<open>LoadImageThread.run\<close>: the pair it emits, or the exception
  raised, and the network requests made by the executing thread.
\<close>

definition load_image_try ::
  "requests_get \<Rightarrow> decoder \<Rightarrow> thread \<Rightarrow> load_image_thread
     \<Rightarrow> (py_exception + pixmap \<times> string) \<times> (thread \<times> string) list" where
  "load_image_try http dec th t =
     (case thread_image_url t of
        None \<Rightarrow> (Inr (NullPixmap, thread_link t), [])
      | Some u \<Rightarrow>
          if u = [] then (Inr (NullPixmap, thread_link t), [])
          else
            (case http u of
               Inl e \<Rightarrow> (Inl e, [(th, u)])
             | Inr r \<Rightarrow>
                 if status_code r = 200
                 then (Inr (loadFromData dec (content r), thread_link t), [(th, u)])
                 else (Inr (NullPixmap, thread_link t), [(th, u)])))"

text \<open>
  \<^verbatim>\<open>LoadImageThread.run\<close>: the exception that leaves it or the pairs sent by
  \<^verbatim>\<open>image_loaded.emit\<close>, and the requests made.
\<close>

definition load_image_run ::
  "requests_get \<Rightarrow> decoder \<Rightarrow> thread \<Rightarrow> load_image_thread
     \<Rightarrow> (py_exception + (pixmap \<times> string) list) \<times> (thread \<times> string) list" where
  "load_image_run http dec th t =
     (case load_image_try http dec th t of
        (Inr emitted, requests) \<Rightarrow> (Inr [emitted], requests)
      | (Inl e, requests) \<Rightarrow> (Inr [(NullPixmap, thread_link t)], requests))"

text \<open>
  \<^verbatim>\<open>set_image\<close>, with the label given by the widget that owns it. A label that Qt has
  deleted is still referenced by the lambda, and calling a method on it raises
  \<^verbatim>\<open>RuntimeError\<close>.
\<close>

definition set_image :: "nat \<Rightarrow> pixmap \<Rightarrow> string \<Rightarrow> app \<Rightarrow> py_exception + app" where
  "set_image label img l a =
     (case widgets a label of
        None \<Rightarrow> Inl (RuntimeError ''wrapped C/C++ object of type QLabel has been deleted'')
      | Some wd \<Rightarrow>
          Inr (a\<lparr>widgets := (widgets a)(label \<mapsto> wd\<lparr>image_label :=
            (if \<not> isNull img
             then \<lparr>label_content = Pixmap (scaled img 100 100 KeepAspectRatio),
                   mouseDoubleClickEvent = Some l\<rparr>
             else (image_label wd)\<lparr>label_content := Text ''No image available''\<rparr>)\<rparr>)\<rparr>))"

fun deliver_images :: "nat \<Rightarrow> (pixmap \<times> string) list \<Rightarrow> app \<Rightarrow> py_exception + app" where
  "deliver_images label [] a = Inr a"
| "deliver_images label ((img, l) # rest) a =
     (case set_image label img l a of Inl e \<Rightarrow> Inl e | Inr a' \<Rightarrow> deliver_images label rest a')"

text \<open>
  The \<open>k\<close>-th started image thread runs to its end in a worker thread, and the pairs
  it emitted reach the connected lambda, which calls \<^verbatim>\<open>set_image\<close> in the main thread.
\<close>

definition image_thread_finishes ::
  "requests_get \<Rightarrow> decoder \<Rightarrow> nat \<Rightarrow> app \<Rightarrow> py_exception + app" where
  "image_thread_finishes http dec k a =
     (if k < length (threads a) then
        (case load_image_run http dec WorkerThread (threads a ! k) of
           (Inl e, requests) \<Rightarrow> Inl e
         | (Inr emitted, requests) \<Rightarrow>
             deliver_images (thread_label (threads a ! k)) emitted
               (a\<lparr>threads := take k (threads a) @ drop (Suc k) (threads a),
                  network := network a @ requests\<rparr>))
      else Inr a)"

section \<open>The program\<close>

definition feed_url :: string where
  "feed_url = ''https://www.ilpost.it/feed''"

text \<open>
  When a slot returns, control is back in the event loop, which deletes every widget
  for which \<^verbatim>\<open>deleteLater\<close> was called.
\<close>

definition deferred_delete :: "app \<Rightarrow> app" where
  "deferred_delete a =
     a\<lparr>widgets := (\<lambda>w. case widgets a w of
                         None \<Rightarrow> None
                       | Some wd \<Rightarrow> if deleteLater wd then None else Some wd)\<rparr>"

text \<open>
  \<^verbatim>\<open>fetch_news\<close> starts a \<^verbatim>\<open>FetchNewsThread\<close>, and this is the effect of that thread:
  \<^verbatim>\<open>run\<close> requests the feed in the worker thread, and each payload it emits reaches the
  slot \<^verbatim>\<open>display_news\<close> of the window, which lives in the main thread.
\<close>

fun deliver_news ::
  "requests_get \<Rightarrow> decoder \<Rightarrow> thread \<Rightarrow> news_item list list \<Rightarrow> app \<Rightarrow> app" where
  "deliver_news http dec th [] a = a"
| "deliver_news http dec th (news_items # rest) a =
     deliver_news http dec th rest (deferred_delete (display_news http dec th news_items a))"

definition fetch_news ::
  "parser \<Rightarrow> requests_get \<Rightarrow> decoder \<Rightarrow> resource \<Rightarrow> app \<Rightarrow> py_exception + app" where
  "fetch_news bs http dec res a =
     (case run bs (feedparser_parse res) of
        Inl e \<Rightarrow> Inl e
      | Inr emitted \<Rightarrow>
          Inr (deliver_news http dec (slot_thread WorkerThread MainThread) emitted
                 (a\<lparr>network := network a @ [(WorkerThread, feed_url)]\<rparr>)))"

fun deliver_news_trial :: "news_item list list \<Rightarrow> app \<Rightarrow> failure + app" where
  "deliver_news_trial [] a = Inr a"
| "deliver_news_trial (news_items # rest) a =
     (case display_news_trial news_items a of
        Inl f \<Rightarrow> Inl f
      | Inr a' \<Rightarrow> deliver_news_trial rest (deferred_delete a'))"

definition fetch_news_trial :: "parser \<Rightarrow> resource \<Rightarrow> app \<Rightarrow> failure + app" where
  "fetch_news_trial bs res a =
     (case run_trial bs (feedparser_parse res) of
        Inl e \<Rightarrow> Inl (Raised e)
      | Inr emitted \<Rightarrow>
          deliver_news_trial emitted (a\<lparr>network := network a @ [(WorkerThread, feed_url)]\<rparr>))"

text \<open>
  What the user can do to the window, in both programs: press a key, double-click the
  title label or the image label of a widget.
\<close>

datatype event =
    KeyPressed key
  | TitleDoubleClicked nat
  | ImageDoubleClicked nat

fun handle_event :: "event \<Rightarrow> app \<Rightarrow> py_exception + app" where
  "handle_event (KeyPressed k) a = keyPressEvent k a"
| "handle_event (TitleDoubleClicked w) a = Inr (double_click_title w a)"
| "handle_event (ImageDoubleClicked w) a = Inr (double_click_image w a)"

text \<open>A sequence of events, handled in order; an exception ends it.\<close>

fun run_events :: "event list \<Rightarrow> app \<Rightarrow> py_exception + app" where
  "run_events [] a = Inr a"
| "run_events (ev # evs) a =
     (case handle_event ev a of Inl e \<Rightarrow> Inl e | Inr a' \<Rightarrow> run_events evs a')"

text \<open>
  A run of the program. \<^verbatim>\<open>fetch_news\<close> is called once, from \<^verbatim>\<open>initUI\<close>, and nothing
  else starts a fetch, so a run is: the events handled while the fetch is in flight,
  the completion of the fetch, and the events handled afterwards. The state before the
  fetch completes is \<open>run_events before initUI\<close>.
\<close>

definition program ::
  "parser \<Rightarrow> requests_get \<Rightarrow> decoder \<Rightarrow> event list \<Rightarrow> resource \<Rightarrow> event list
     \<Rightarrow> py_exception + app" where
  "program bs http dec before res after =
     (case run_events before initUI of
        Inl e \<Rightarrow> Inl e
      | Inr a \<Rightarrow>
          (case fetch_news bs http dec res a of
             Inl e \<Rightarrow> Inl e
           | Inr a' \<Rightarrow> run_events after a'))"

definition program_trial ::
  "parser \<Rightarrow> event list \<Rightarrow> resource \<Rightarrow> event list \<Rightarrow> failure + app" where
  "program_trial bs before res after =
     (case run_events before initUI of
        Inl e \<Rightarrow> Inl (Raised e)
      | Inr a \<Rightarrow>
          (case fetch_news_trial bs res a of
             Inl f \<Rightarrow> Inl f
           | Inr a' \<Rightarrow>
               (case run_events after a' of Inl e \<Rightarrow> Inl (Raised e) | Inr a'' \<Rightarrow> Inr a'')))"

text \<open>The rows on display, in order: the widget objects that \<open>news_widgets\<close> names.\<close>

definition rows :: "app \<Rightarrow> qwidget option list" where
  "rows a = map (widgets a) (news_widgets a)"

section \<open>Auxiliary notions\<close>

text \<open>
  What \<^verbatim>\<open>create_news_widget\<close> does to the row data: the new widget gets the next
  identity, carries the item's title and link, and nothing else of the row list
  changes. \<open>il\<close> is the image label that is built.
\<close>

definition creates_widget :: "(news_item \<Rightarrow> qlabel) \<Rightarrow> (news_item \<Rightarrow> app \<Rightarrow> nat \<times> app) \<Rightarrow> bool" where
  "creates_widget il create \<longleftrightarrow>
     (\<forall>item a. fst (create item a) = allocated a
        \<and> widgets (snd (create item a)) = (widgets a)(allocated a \<mapsto> new_widget (il item) item)
        \<and> allocated (snd (create item a)) = Suc (allocated a)
        \<and> news_widgets (snd (create item a)) = news_widgets a
        \<and> selected_index (snd (create item a)) = selected_index a)"

text \<open>The two style sheets of \<^verbatim>\<open>update_highlight\<close>.\<close>

definition highlight :: "bool \<Rightarrow> string" where
  "highlight sel = (if sel then ''background-color: lightblue;'' else ''background-color: none;'')"

text \<open>The selection index names a row, or is 0 when there is no row.\<close>

definition selection_valid :: "app \<Rightarrow> bool" where
  "selection_valid a \<longleftrightarrow>
     0 \<le> selected_index a \<and> selected_index a \<le> max 0 (int (length (news_widgets a)) - 1)"

text \<open>The image URLs of the items that have one: neither \<^verbatim>\<open>None\<close> nor the empty string.\<close>

definition image_urls :: "news_item list \<Rightarrow> string list" where
  "image_urls news_items =
     concat (map (\<lambda>item. case image_url item of None \<Rightarrow> [] | Some u \<Rightarrow> if u = [] then [] else [u])
       news_items)"

text \<open>The item has an image URL and the request for it is answered with status 200.\<close>

definition image_fetched :: "requests_get \<Rightarrow> news_item \<Rightarrow> bool" where
  "image_fetched http news_item =
     (case image_url news_item of
        None \<Rightarrow> False
      | Some u \<Rightarrow> u \<noteq> [] \<and> (case http u of Inl e \<Rightarrow> False | Inr r \<Rightarrow> status_code r = 200))"

text \<open>A component of the state that a computation returned.\<close>

definition observe :: "(app \<Rightarrow> 'b) \<Rightarrow> 'e + app \<Rightarrow> 'b option" where
  "observe f r = (case r of Inl e \<Rightarrow> None | Inr a \<Rightarrow> Some (f a))"

text \<open>What the image label of a widget shows.\<close>

definition shown_image :: "nat \<Rightarrow> app \<Rightarrow> label_content option" where
  "shown_image w a = map_option (\<lambda>wd. label_content (image_label wd)) (widgets a w)"

text \<open>Library behaviours for the concrete runs below: a parser that finds no element,\<close>

definition no_markup :: parser where
  "no_markup d = Inr []"


text \<open>a network on which every request raises,\<close>

definition offline :: requests_get where
  "offline u = Inl (OtherException ''offline'')"

text \<open>a server that answers every request with status 404,\<close>

definition not_found :: requests_get where
  "not_found u = Inr \<lparr>status_code = 404, content = []\<rparr>"

text \<open>a server that answers every request with status 200 and the given bytes,\<close>

definition serves :: "nat list \<Rightarrow> requests_get" where
  "serves d u = Inr \<lparr>status_code = 200, content = d\<rparr>"

text \<open>a decoder that rejects every input,\<close>

definition undecodable :: decoder where
  "undecodable d = False"

text \<open>and a decoder that accepts every input.\<close>

definition decodable :: decoder where
  "decodable d = True"

section \<open>The fetcher\<close>

lemma entries_loop_length:
  "entries_loop ex es acc = Inr items \<Longrightarrow> length items = length acc + length es"
  by (induction es arbitrary: acc) (auto split: sum.splits)

lemma run_with_total: "\<exists>p. run_with ex feed = Inr [p]"
  by (simp add: run_with_def split: sum.splits)

lemma run_try_raises:
  "run_try ex feed = Inl e \<Longrightarrow> run_with ex feed = Inr [[error_item e]]"
  by (simp add: run_with_def)

text \<open>
  Claim C2 does not hold of the code. The feed URL cannot be reached:
  \<^verbatim>\<open>feedparser.parse\<close> does not raise but returns a result without entries, the loop
  body never runs, the handler is never entered, and \<^verbatim>\<open>run\<close> emits the empty list
  instead of the error item. Both programs.
\<close>

theorem unreachable_feed_emits_empty_list:
  "run no_markup (feedparser_parse (Unreachable ''Name or service not known'')) = Inr [[]]
   \<and> run_trial no_markup (feedparser_parse (Unreachable ''Name or service not known'')) = Inr [[]]"
  by (simp add: run_def run_trial_def run_with_def run_try_def)


text \<open>
  Claim C7, as stated, fails: a feed without entries makes \<^verbatim>\<open>run\<close> emit the empty list.
\<close>

theorem run_emits_empty_list_counterexample:
  "run no_markup (Inr []) = Inr [[]] \<and> run_trial no_markup (Inr []) = Inr [[]]"
  by (simp add: run_def run_trial_def run_with_def run_try_def)

text \<open>
  Claim C7, amended. \<^verbatim>\<open>run\<close> emits exactly one payload, which is either the single
  error item or a list with one item per entry of the feed, so it is empty only for a
  feed without entries. Both programs.
\<close>

theorem run_emits_items_or_error:
  "((\<exists>e. run bs feed = Inr [[error_item e]]) \<or>
    (\<exists>entries news_items. feed = Inr entries \<and> run bs feed = Inr [news_items]
        \<and> length news_items = length entries))
   \<and> ((\<exists>e. run_trial bs feed = Inr [[error_item e]]) \<or>
    (\<exists>entries news_items. feed = Inr entries \<and> run_trial bs feed = Inr [news_items]
        \<and> length news_items = length entries))"
  by (auto simp: run_def run_trial_def run_with_def run_try_def split: sum.splits dest: entries_loop_length)

text \<open>
  Claim C3 does not hold of \<^verbatim>\<open>PostNews.py\<close>. The first entry's description has an
  \<^verbatim>\<open>img\<close> element without \<^verbatim>\<open>src\<close>, the second one is well formed. In
  \<^verbatim>\<open>PostNews.py\<close> the \<^verbatim>\<open>KeyError\<close> ends the loop and the whole batch is replaced by
  the error item; \<^verbatim>\<open>PostNewsTrial.py\<close> catches it for that entry and emits both items.
\<close>

theorem image_without_src_aborts_batch:
  "run (\<lambda>d. if d = ''<img alt=x>'' then Inr [\<lparr>tag_name = ''img'', attrs = [(''alt'', ''x'')]\<rparr>]
             else Inr [\<lparr>tag_name = ''p'', attrs = []\<rparr>, \<lparr>tag_name = ''img'', attrs = [(''src'', ''u'')]\<rparr>])
     (Inr [\<lparr>entry_title = Some ''A'', entry_link = Some ''a'', entry_description = Some ''<img alt=x>''\<rparr>,
           \<lparr>entry_title = Some ''B'', entry_link = Some ''b'', entry_description = Some ''<p><img src=u></p>''\<rparr>])
   = Inr [[\<lparr>title = ''Error fetching news: '' @ [CHR 0x27] @ ''src'' @ [CHR 0x27], link = [], image_url = None\<rparr>]]
   \<and> run_trial (\<lambda>d. if d = ''<img alt=x>'' then Inr [\<lparr>tag_name = ''img'', attrs = [(''alt'', ''x'')]\<rparr>]
             else Inr [\<lparr>tag_name = ''p'', attrs = []\<rparr>, \<lparr>tag_name = ''img'', attrs = [(''src'', ''u'')]\<rparr>])
     (Inr [\<lparr>entry_title = Some ''A'', entry_link = Some ''a'', entry_description = Some ''<img alt=x>''\<rparr>,
           \<lparr>entry_title = Some ''B'', entry_link = Some ''b'', entry_description = Some ''<p><img src=u></p>''\<rparr>])
   = Inr [[\<lparr>title = ''A'', link = ''a'', image_url = None\<rparr>,
           \<lparr>title = ''B'', link = ''b'', image_url = Some ''u''\<rparr>]]"
  by (simp add: run_def run_trial_def run_with_def run_try_def getattr_def extract_image_url_def
      extract_image_url_trial_def tag_src_def error_item_def)

lemma soup_find_first:
  "soup_find name sp = Some t \<longleftrightarrow>
     (\<exists>before after. sp = before @ t # after \<and> tag_name t = name
        \<and> (\<forall>x \<in> set before. tag_name x \<noteq> name))"
proof (induction sp)
  case Nil
  then show ?case by simp
next
  case (Cons x sp)
  show ?case
  proof (cases "tag_name x = name")
    case True
    have "(\<exists>before after. x # sp = before @ t # after \<and> tag_name t = name
        \<and> (\<forall>y \<in> set before. tag_name y \<noteq> name)) \<longleftrightarrow> x = t"
    proof
      assume "\<exists>before after. x # sp = before @ t # after \<and> tag_name t = name
        \<and> (\<forall>y \<in> set before. tag_name y \<noteq> name)"
      then obtain before after where e: "x # sp = before @ t # after"
        and n: "\<forall>y \<in> set before. tag_name y \<noteq> name" by blast
      show "x = t"
      proof (cases before)
        case Nil
        with e show ?thesis by simp
      next
        case (Cons b bs)
        with e n True show ?thesis by auto
      qed
    next
      assume "x = t"
      with True show "\<exists>before after. x # sp = before @ t # after \<and> tag_name t = name
        \<and> (\<forall>y \<in> set before. tag_name y \<noteq> name)"
        by (intro exI [of _ "[]"] exI [of _ sp]) simp
    qed
    with True show ?thesis by auto
  next
    case False
    have "(\<exists>before after. x # sp = before @ t # after \<and> tag_name t = name
        \<and> (\<forall>y \<in> set before. tag_name y \<noteq> name))
      \<longleftrightarrow> (\<exists>before after. sp = before @ t # after \<and> tag_name t = name
        \<and> (\<forall>y \<in> set before. tag_name y \<noteq> name))" (is "?L \<longleftrightarrow> ?R")
    proof
      assume ?L
      then obtain before after where e: "x # sp = before @ t # after" and tn: "tag_name t = name"
        and n: "\<forall>y \<in> set before. tag_name y \<noteq> name" by blast
      show ?R
      proof (cases before)
        case Nil
        with e tn False show ?thesis by simp
      next
        case (Cons b bs)
        with e n tn show ?thesis by auto
      qed
    next
      assume ?R
      then obtain before after where e: "sp = before @ t # after" and tn: "tag_name t = name"
        and n: "\<forall>y \<in> set before. tag_name y \<noteq> name" by blast
      show ?L
        by (intro exI [of _ "x # before"] exI [of _ after]) (use e tn n False in simp)
    qed
    with False Cons.IH show ?thesis by simp
  qed
qed

lemma soup_find_None: "soup_find name sp = None \<longleftrightarrow> (\<forall>x \<in> set sp. tag_name x \<noteq> name)"
  by (induction sp) auto

lemma extract_image_url_first_img:
  assumes "entry_description e = Some d" and "bs d = Inr (before @ t # after)"
    and "tag_name t = ''img''" and "\<forall>x \<in> set before. tag_name x \<noteq> ''img''"
  shows "extract_image_url bs e
           = (case map_of (attrs t) ''src'' of
               None \<Rightarrow> Inl (KeyError ([CHR 0x27] @ ''src'' @ [CHR 0x27]))
             | Some v \<Rightarrow> Inr (Some v))"
    and "extract_image_url_trial bs e = Inr (map_of (attrs t) ''src'')"
proof -
  have f: "soup_find ''img'' (before @ t # after) = Some t"
    using assms(3,4) unfolding soup_find_first by blast
  show "extract_image_url bs e
           = (case map_of (attrs t) ''src'' of
               None \<Rightarrow> Inl (KeyError ([CHR 0x27] @ ''src'' @ [CHR 0x27]))
             | Some v \<Rightarrow> Inr (Some v))"
    using assms(1,2) f
    by (simp add: extract_image_url_def getattr_def tag_src_def split: option.splits)
  then show "extract_image_url_trial bs e = Inr (map_of (attrs t) ''src'')"
    by (simp add: extract_image_url_trial_def split: option.splits)
qed

lemma extract_image_url_no_img:
  assumes "entry_description e = Some d" and "bs d = Inr sp"
    and "\<forall>x \<in> set sp. tag_name x \<noteq> ''img''"
  shows "extract_image_url bs e = Inr None" and "extract_image_url_trial bs e = Inr None"
  using assms soup_find_None [of "''img''" sp]
  by (simp_all add: extract_image_url_def extract_image_url_trial_def getattr_def)

lemma extract_image_url_trial_total: "\<exists>u. extract_image_url_trial bs e = Inr u"
  by (simp add: extract_image_url_trial_def split: sum.splits)

lemma entries_loop_trial:
  assumes "\<forall>e \<in> set es. entry_title e \<noteq> None \<and> entry_link e \<noteq> None"
  shows "\<exists>items. entries_loop (extract_image_url_trial bs) es acc = Inr (acc @ items)
           \<and> length items = length es"
  using assms
proof (induction es arbitrary: acc)
  case Nil
  then show ?case by simp
next
  case (Cons e es)
  from Cons.prems obtain t l where tl: "entry_title e = Some t" "entry_link e = Some l"
    by auto
  obtain u where u: "extract_image_url_trial bs e = Inr u"
    using extract_image_url_trial_total by blast
  from Cons.prems have "\<forall>e \<in> set es. entry_title e \<noteq> None \<and> entry_link e \<noteq> None" by simp
  from Cons.IH [OF this, of "acc @ [\<lparr>title = t, link = l, image_url = u\<rparr>]"]
  obtain items where "entries_loop (extract_image_url_trial bs) es
      (acc @ [\<lparr>title = t, link = l, image_url = u\<rparr>]) = Inr ((acc @ [\<lparr>title = t, link = l, image_url = u\<rparr>]) @ items)"
    "length items = length es" by blast
  then show ?case
    by (intro exI [of _ "\<lparr>title = t, link = l, image_url = u\<rparr> # items"])
       (simp add: tl u getattr_def)
qed

section \<open>Rows\<close>

lemma update_widget_fields [simp]:
  "news_widgets (update_widget w f a) = news_widgets a"
  "selected_index (update_widget w f a) = selected_index a"
  "allocated (update_widget w f a) = allocated a"
  "threads (update_widget w f a) = threads a"
  "opened (update_widget w f a) = opened a"
  "network (update_widget w f a) = network a"
  "ensured_visible (update_widget w f a) = ensured_visible a"
  by (simp_all add: update_widget_def split: option.splits)

lemma update_widget_widgets:
  "widgets (update_widget w f a) v = (if v = w then map_option f (widgets a w) else widgets a v)"
  by (simp add: update_widget_def split: option.splits)

lemma highlight_loop_fields [simp]:
  "news_widgets (highlight_loop ws i a) = news_widgets a"
  "selected_index (highlight_loop ws i a) = selected_index a"
  "allocated (highlight_loop ws i a) = allocated a"
  "threads (highlight_loop ws i a) = threads a"
  "opened (highlight_loop ws i a) = opened a"
  "network (highlight_loop ws i a) = network a"
  "ensured_visible (highlight_loop ws i a) = ensured_visible a"
  by (induction ws arbitrary: i a; simp)+

lemma highlight_loop_other:
  "v \<notin> set ws \<Longrightarrow> widgets (highlight_loop ws i a) v = widgets a v"
  by (induction ws arbitrary: i a) (auto simp: update_widget_widgets)

lemma highlight_loop_nth:
  "distinct ws \<Longrightarrow> j < length ws \<Longrightarrow>
   widgets (highlight_loop ws i a) (ws ! j) =
     map_option (\<lambda>wd. wd\<lparr>styleSheet := highlight (i + int j = selected_index a)\<rparr>) (widgets a (ws ! j))"
proof (induction ws arbitrary: i a j)
  case Nil
  then show ?case by simp
next
  case (Cons w ws)
  show ?case
  proof (cases j)
    case 0
    with Cons.prems show ?thesis
      by (simp add: highlight_loop_other update_widget_widgets highlight_def)
  next
    case (Suc j')
    with Cons.prems have d: "distinct ws" and lt: "j' < length ws" and ne: "ws ! j' \<noteq> w"
      by auto
    have "i + 1 + int j' = i + int (Suc j')" by simp
    with Cons.IH [OF d lt, of "i + 1"] Suc ne show ?thesis
      by (simp add: update_widget_widgets)
  qed
qed

lemma delete_loop_fields [simp]:
  "news_widgets (delete_loop ws a) = news_widgets a"
  "selected_index (delete_loop ws a) = selected_index a"
  "allocated (delete_loop ws a) = allocated a"
  "threads (delete_loop ws a) = threads a"
  "opened (delete_loop ws a) = opened a"
  "network (delete_loop ws a) = network a"
  "ensured_visible (delete_loop ws a) = ensured_visible a"
  by (induction ws arbitrary: a; simp)+

lemma items_loop_spec:
  assumes c: "creates_widget il create"
  shows "news_widgets (items_loop create items a)
           = news_widgets a @ [allocated a ..< allocated a + length items]
       \<and> allocated (items_loop create items a) = allocated a + length items
       \<and> selected_index (items_loop create items a) = selected_index a
       \<and> (\<forall>v. widgets (items_loop create items a) v =
            (if allocated a \<le> v \<and> v < allocated a + length items
             then Some (new_widget (il (items ! (v - allocated a))) (items ! (v - allocated a)))
             else widgets a v))"
proof (induction items arbitrary: a)
  case Nil
  show ?case by auto
next
  case (Cons item items)
  obtain w a' where cr: "create item a = (w, a')" by (cases "create item a")
  have s: "w = allocated a"
    "widgets a' = (widgets a)(allocated a \<mapsto> new_widget (il item) item)"
    "allocated a' = Suc (allocated a)" "news_widgets a' = news_widgets a"
    "selected_index a' = selected_index a"
    using cr c [unfolded creates_widget_def, rule_format, of item a] by simp_all
  let ?b = "a'\<lparr>news_widgets := news_widgets a' @ [w]\<rparr>"
  have step: "items_loop create (item # items) a = items_loop create items ?b"
    by (simp add: cr)
  have b: "allocated ?b = Suc (allocated a)" "news_widgets ?b = news_widgets a @ [allocated a]"
    "selected_index ?b = selected_index a"
    "widgets ?b = (widgets a)(allocated a \<mapsto> new_widget (il item) item)"
    by (simp_all add: s)
  note ih = Cons.IH [of ?b, unfolded b]
  have upt: "[allocated a ..< Suc (allocated a + length items)]
      = allocated a # [Suc (allocated a) ..< Suc (allocated a + length items)]"
    by (rule upt_conv_Cons) simp
  show ?case
    unfolding step
    apply (intro conjI allI)
       apply (simp add: ih upt del: upt_Suc)
      apply (simp add: ih)
     apply (simp add: ih)
    subgoal for v
      by (simp add: ih)
    done
qed

lemma display_news_with_spec:
  assumes c: "creates_widget il create"
  shows "news_widgets (display_news_with create items a) = [allocated a ..< allocated a + length items]"
    and "allocated (display_news_with create items a) = allocated a + length items"
    and "selected_index (display_news_with create items a) = (if items = [] then selected_index a else 0)"
    and "i < length items \<Longrightarrow> widgets (display_news_with create items a) (allocated a + i)
           = Some ((new_widget (il (items ! i)) (items ! i))\<lparr>styleSheet := highlight (i = 0)\<rparr>)"
proof -
  let ?a1 = "(delete_loop (news_widgets a) a)\<lparr>news_widgets := []\<rparr>"
  let ?a2 = "items_loop create items ?a1"
  have a1: "allocated ?a1 = allocated a" "news_widgets ?a1 = []" "selected_index ?a1 = selected_index a"
    by simp_all
  note sp = items_loop_spec [OF c, of items ?a1, unfolded a1]
  have nw: "news_widgets ?a2 = [allocated a ..< allocated a + length items]"
    using sp by simp
  have d: "display_news_with create items a
      = (if items = [] then ?a2 else update_highlight (?a2\<lparr>selected_index := 0\<rparr>))"
    by (simp add: display_news_with_def Let_def nw)
  show "news_widgets (display_news_with create items a) = [allocated a ..< allocated a + length items]"
    by (simp add: d update_highlight_def nw)
  show "allocated (display_news_with create items a) = allocated a + length items"
    using sp by (simp add: d update_highlight_def)
  show "selected_index (display_news_with create items a) = (if items = [] then selected_index a else 0)"
    using sp by (simp add: d update_highlight_def)
  show "widgets (display_news_with create items a) (allocated a + i)
           = Some ((new_widget (il (items ! i)) (items ! i))\<lparr>styleSheet := highlight (i = 0)\<rparr>)"
    if i: "i < length items"
  proof -
    from i have ne: "items \<noteq> []" by auto
    let ?ws = "[allocated a ..< allocated a + length items]"
    have nth: "?ws ! i = allocated a + i" using i by simp
    have "widgets (highlight_loop ?ws 0 (?a2\<lparr>selected_index := 0\<rparr>)) (?ws ! i)
        = map_option (\<lambda>wd. wd\<lparr>styleSheet := highlight (0 + int i = selected_index (?a2\<lparr>selected_index := 0\<rparr>))\<rparr>)
            (widgets (?a2\<lparr>selected_index := 0\<rparr>) (?ws ! i))"
      by (rule highlight_loop_nth) (use i in simp_all)
    then show ?thesis
      using sp i by (simp add: d ne update_highlight_def nw nth)
  qed
qed

lemma creates_widget_sync:
  "creates_widget (\<lambda>item. fst (create_image_label http dec th item)) (create_news_widget http dec th)"
  by (simp add: creates_widget_def create_news_widget_def split: prod.splits)

lemma display_rows:
  assumes c: "creates_widget il create"
  shows "rows (display_news_with create items a)
    = map (\<lambda>i. Some ((new_widget (il (items ! i)) (items ! i))\<lparr>styleSheet := highlight (i = 0)\<rparr>))
        [0 ..< length items]"
  by (rule nth_equalityI)
     (simp_all add: rows_def display_news_with_spec(1)[OF c] display_news_with_spec(4)[OF c])

lemma rows_titles:
  assumes c: "creates_widget il create"
  shows "map (map_option (\<lambda>wd. (label_content (title_label wd), widget_link wd)))
           (rows (display_news_with create items a))
         = map (\<lambda>item. Some (Text (title item), link item)) items"
  by (rule nth_equalityI) (simp_all add: display_rows [OF c] new_widget_def)

lemma rows_styles:
  assumes c: "creates_widget il create"
  shows "map (map_option styleSheet) (rows (display_news_with create items a))
         = map (\<lambda>i. Some (highlight (i = 0))) [0 ..< length items]"
  by (rule nth_equalityI) (simp_all add: display_rows [OF c] new_widget_def)

lemma rows_length:
  assumes c: "creates_widget il create"
  shows "length (rows (display_news_with create items a)) = length items"
  by (simp add: display_rows [OF c])

lemma styles_list:
  assumes "items \<noteq> []"
  shows "map (\<lambda>i. Some (highlight (i = 0))) [0 ..< length items]
      = Some ''background-color: lightblue;''
        # replicate (length items - 1) (Some ''background-color: none;'')"
proof (rule nth_equalityI)
  show "length (map (\<lambda>i. Some (highlight (i = 0))) [0 ..< length items])
      = length (Some ''background-color: lightblue;''
          # replicate (length items - 1) (Some ''background-color: none;''))"
    using assms by (cases items) simp_all
next
  fix i assume "i < length (map (\<lambda>i. Some (highlight (i = 0))) [0 ..< length items])"
  then have "i < length items" by simp
  then show "map (\<lambda>i. Some (highlight (i = 0))) [0 ..< length items] ! i
      = (Some ''background-color: lightblue;''
          # replicate (length items - 1) (Some ''background-color: none;'')) ! i"
    by (cases i) (simp_all add: highlight_def)
qed

lemma display_news_with_rows:
  assumes c: "creates_widget il create"
  shows "length (rows (display_news_with create items a)) = length items
   \<and> map (map_option (\<lambda>wd. (label_content (title_label wd), widget_link wd)))
        (rows (display_news_with create items a))
      = map (\<lambda>item. Some (Text (title item), link item)) items
   \<and> (items \<noteq> [] \<longrightarrow>
        selected_index (display_news_with create items a) = 0
        \<and> map (map_option styleSheet) (rows (display_news_with create items a))
           = Some ''background-color: lightblue;''
             # replicate (length items - 1) (Some ''background-color: none;''))"
  using rows_length [OF c, of items a] rows_titles [OF c, of items a]
    rows_styles [OF c, of items a] display_news_with_spec(3) [OF c, of items a]
    styles_list [of items]
  by simp

lemma display_news_rows_sync:
  "length (rows (display_news http dec th items a)) = length items
   \<and> map (map_option (\<lambda>wd. (label_content (title_label wd), widget_link wd)))
        (rows (display_news http dec th items a))
      = map (\<lambda>item. Some (Text (title item), link item)) items
   \<and> (items \<noteq> [] \<longrightarrow>
        selected_index (display_news http dec th items a) = 0
        \<and> map (map_option styleSheet) (rows (display_news http dec th items a))
           = Some ''background-color: lightblue;''
             # replicate (length items - 1) (Some ''background-color: none;''))"
  unfolding display_news_def
  using display_news_with_rows [OF creates_widget_sync, of http dec th items a]
  by blast

lemma create_news_widget_trial_aborts:
  "create_news_widget_trial item a = Inl (Aborted ''QThread: Destroyed while thread is still running'')"
  by (simp add: create_news_widget_trial_def create_news_widget_started_def)

lemma display_news_trial_Nil:
  "display_news_trial [] a = Inr ((delete_loop (news_widgets a) a)\<lparr>news_widgets := []\<rparr>)"
  by (simp add: display_news_trial_def)

lemma display_news_trial_Cons:
  "display_news_trial (item # items) a
     = Inl (Aborted ''QThread: Destroyed while thread is still running'')"
  by (simp add: display_news_trial_def create_news_widget_trial_aborts)

text \<open>
  Claim C1 does not hold of \<^verbatim>\<open>PostNewsTrial.py\<close>. With one item to display,
  \<^verbatim>\<open>create_news_widget\<close> starts the image thread and returns without keeping a reference
  to it; the running thread is destroyed and the process aborts before the first row
  is appended. \<^verbatim>\<open>PostNews.py\<close>, on the same item, displays the row with its title and
  link, selected and highlighted.
\<close>

theorem display_news_trial_aborts:
  "display_news_trial [\<lparr>title = ''A'', link = ''a'', image_url = None\<rparr>] initUI
     = Inl (Aborted ''QThread: Destroyed while thread is still running'')
   \<and> map (map_option (\<lambda>wd. (label_content (title_label wd), widget_link wd, styleSheet wd)))
        (rows (display_news offline undecodable MainThread
           [\<lparr>title = ''A'', link = ''a'', image_url = None\<rparr>] initUI))
      = [Some (Text ''A'', ''a'', ''background-color: lightblue;'')]
   \<and> selected_index (display_news offline undecodable MainThread
           [\<lparr>title = ''A'', link = ''a'', image_url = None\<rparr>] initUI) = 0"
proof -
  have t: "display_news_trial [\<lparr>title = ''A'', link = ''a'', image_url = None\<rparr>] initUI
     = Inl (Aborted ''QThread: Destroyed while thread is still running'')"
    by (rule display_news_trial_Cons)
  have s: "map (map_option (\<lambda>wd. (label_content (title_label wd), widget_link wd, styleSheet wd)))
        (rows (display_news offline undecodable MainThread
           [\<lparr>title = ''A'', link = ''a'', image_url = None\<rparr>] initUI))
      = [Some (Text ''A'', ''a'', ''background-color: lightblue;'')]"
    by code_simp
  have i: "selected_index (display_news offline undecodable MainThread
           [\<lparr>title = ''A'', link = ''a'', image_url = None\<rparr>] initUI) = 0"
    by code_simp
  from t s i show ?thesis by simp
qed

lemma create_image_label_handler:
  "mouseDoubleClickEvent (fst (create_image_label http dec th item))
     = (if image_fetched http item then Some (link item) else None)"
  by (simp add: create_image_label_def image_fetched_def split: option.splits sum.splits)

lemma open_link_opened:
  "open_link l a = a\<lparr>opened := opened a @ (if l = [] then [] else [l])\<rparr>"
  by (simp add: open_link_def)

text \<open>
  Claim C9. A row is activated by a double click on a label that has a handler. In
  \<^verbatim>\<open>PostNews.py\<close> the title label of the row built for an item always has one, and the
  image label has one when the image was fetched; in \<^verbatim>\<open>PostNewsTrial.py\<close> the title
  label of the widget built for an item has one, and \<^verbatim>\<open>set_image\<close> installs one on the
  image label when it sets an image. Each of these double clicks changes nothing but
  the calls of \<^verbatim>\<open>webbrowser.open\<close>: none is added when the link is empty, and exactly one,
  with the link of the item, when it is not. A double click on an image label without
  image does nothing.
\<close>

theorem link_activation:
  "(i < length items \<longrightarrow>
      double_click_title (news_widgets (display_news http dec th items a) ! i)
          (display_news http dec th items a)
        = (display_news http dec th items a)
            \<lparr>opened := opened (display_news http dec th items a)
               @ (if link (items ! i) = [] then [] else [link (items ! i)])\<rparr>
      \<and> double_click_image (news_widgets (display_news http dec th items a) ! i)
          (display_news http dec th items a)
        = (if image_fetched http (items ! i)
           then (display_news http dec th items a)
             \<lparr>opened := opened (display_news http dec th items a)
                @ (if link (items ! i) = [] then [] else [link (items ! i)])\<rparr>
           else display_news http dec th items a))
   \<and> double_click_title (fst (create_news_widget_started item a))
        (snd (create_news_widget_started item a))
      = (snd (create_news_widget_started item a))
          \<lparr>opened := opened a @ (if link item = [] then [] else [link item])\<rparr>
   \<and> (widgets a w \<noteq> None \<and> \<not> isNull img \<longrightarrow>
        (\<exists>a'. set_image w img l a = Inr a'
           \<and> double_click_image w a' = a'\<lparr>opened := opened a @ (if l = [] then [] else [l])\<rparr>))"
proof -
  note s = creates_widget_sync [of http dec th]
  have sync: "double_click_title (news_widgets (display_news http dec th items a) ! i)
          (display_news http dec th items a)
        = (display_news http dec th items a)
            \<lparr>opened := opened (display_news http dec th items a)
               @ (if link (items ! i) = [] then [] else [link (items ! i)])\<rparr>
      \<and> double_click_image (news_widgets (display_news http dec th items a) ! i)
          (display_news http dec th items a)
        = (if image_fetched http (items ! i)
           then (display_news http dec th items a)
             \<lparr>opened := opened (display_news http dec th items a)
                @ (if link (items ! i) = [] then [] else [link (items ! i)])\<rparr>
           else display_news http dec th items a)"
    if "i < length items"
    using that unfolding display_news_def
    by (simp add: double_click_title_def double_click_image_def double_click_def new_widget_def
        open_link_opened create_image_label_handler
        display_news_with_spec(1) [OF s] display_news_with_spec(4) [OF s])
  have started: "double_click_title (fst (create_news_widget_started item a))
        (snd (create_news_widget_started item a))
      = (snd (create_news_widget_started item a))
          \<lparr>opened := opened a @ (if link item = [] then [] else [link item])\<rparr>"
    by (simp add: create_news_widget_started_def double_click_title_def double_click_def
        new_widget_def open_link_opened)
  have setimg: "\<exists>a'. set_image w img l a = Inr a'
           \<and> double_click_image w a' = a'\<lparr>opened := opened a @ (if l = [] then [] else [l])\<rparr>"
    if "widgets a w \<noteq> None" "\<not> isNull img"
    using that
    by (auto simp: set_image_def double_click_image_def double_click_def open_link_opened)
  from sync started setimg show ?thesis by blast
qed

theorem link_activation_witness:
  "(0::nat) < length [\<lparr>title = ''A'', link = ''http://a'', image_url = Some ''http://img''\<rparr>]
   \<and> opened (double_click_title
        (news_widgets (display_news (serves [7]) decodable MainThread
           [\<lparr>title = ''A'', link = ''http://a'', image_url = Some ''http://img''\<rparr>] initUI) ! 0)
        (display_news (serves [7]) decodable MainThread
           [\<lparr>title = ''A'', link = ''http://a'', image_url = Some ''http://img''\<rparr>] initUI))
      = [''http://a'']
   \<and> opened (double_click_image
        (news_widgets (display_news (serves [7]) decodable MainThread
           [\<lparr>title = ''A'', link = ''http://a'', image_url = Some ''http://img''\<rparr>] initUI) ! 0)
        (display_news (serves [7]) decodable MainThread
           [\<lparr>title = ''A'', link = ''http://a'', image_url = Some ''http://img''\<rparr>] initUI))
      = [''http://a'']
   \<and> (0::nat) < length [\<lparr>title = ''E'', link = [], image_url = None\<rparr>]
   \<and> opened (double_click_title
        (news_widgets (display_news offline undecodable MainThread
           [\<lparr>title = ''E'', link = [], image_url = None\<rparr>] initUI) ! 0)
        (display_news offline undecodable MainThread
           [\<lparr>title = ''E'', link = [], image_url = None\<rparr>] initUI))
      = []
   \<and> opened (double_click_image
        (news_widgets (display_news offline undecodable MainThread
           [\<lparr>title = ''E'', link = [], image_url = None\<rparr>] initUI) ! 0)
        (display_news offline undecodable MainThread
           [\<lparr>title = ''E'', link = [], image_url = None\<rparr>] initUI))
      = []
   \<and> widgets (snd (create_news_widget_started
        \<lparr>title = ''A'', link = ''http://a'', image_url = Some ''http://img''\<rparr> initUI)) 0 \<noteq> None
   \<and> \<not> isNull (Loaded [7])
   \<and> (\<exists>a'. set_image 0 (Loaded [7]) ''http://a'' (snd (create_news_widget_started
        \<lparr>title = ''A'', link = ''http://a'', image_url = Some ''http://img''\<rparr> initUI)) = Inr a'
        \<and> opened (double_click_image 0 a') = [''http://a''])"
proof -
  let ?S = "snd (create_news_widget_started
        \<lparr>title = ''A'', link = ''http://a'', image_url = Some ''http://img''\<rparr> initUI)"
  have sw: "widgets ?S 0 \<noteq> None" and sn: "\<not> isNull (Loaded [7])"
    by (simp_all add: create_news_widget_started_def initUI_def)
  have so: "opened ?S = []" by code_simp
  have si: "\<exists>a'. set_image 0 (Loaded [7]) ''http://a'' ?S = Inr a'
        \<and> opened (double_click_image 0 a') = [''http://a'']"
  proof -
    from link_activation [of 0 "[]" offline undecodable MainThread ?S
        "\<lparr>title = ''A'', link = ''http://a'', image_url = Some ''http://img''\<rparr>" 0
        "Loaded [7]" "''http://a''"] sw sn
    obtain a' where a': "set_image 0 (Loaded [7]) ''http://a'' ?S = Inr a'"
      "double_click_image 0 a'
         = a'\<lparr>opened := opened ?S @ (if ''http://a'' = [] then [] else [''http://a''])\<rparr>"
      by blast
    have "opened (double_click_image 0 a') = [''http://a'']"
      unfolding a'(2) by (simp add: so)
    with a'(1) show ?thesis by blast
  qed
  let ?A = "[\<lparr>title = ''A'', link = ''http://a'', image_url = Some ''http://img''\<rparr>]"
  let ?E = "[\<lparr>title = ''E'', link = [], image_url = None\<rparr>]"
  have o: "opened (display_news (serves [7]) decodable MainThread ?A initUI) = []"
    "opened (display_news offline undecodable MainThread ?E initUI) = []"
    by code_simp+
  have f: "image_fetched (serves [7]) (?A ! 0)" "\<not> image_fetched offline (?E ! 0)"
    by (simp_all add: image_fetched_def serves_def)
  have la: "(0::nat) < length ?A" and le: "(0::nat) < length ?E" by simp_all
  let ?DA = "display_news (serves [7]) decodable MainThread ?A initUI"
  let ?DE = "display_news offline undecodable MainThread ?E initUI"
  have ia: "double_click_title (news_widgets ?DA ! 0) ?DA
        = ?DA\<lparr>opened := opened ?DA @ (if link (?A ! 0) = [] then [] else [link (?A ! 0)])\<rparr>"
    "double_click_image (news_widgets ?DA ! 0) ?DA
        = (if image_fetched (serves [7]) (?A ! 0)
           then ?DA\<lparr>opened := opened ?DA @ (if link (?A ! 0) = [] then [] else [link (?A ! 0)])\<rparr>
           else ?DA)"
    using link_activation [of 0 ?A "serves [7]" decodable MainThread initUI] la by blast+
  have ie: "double_click_title (news_widgets ?DE ! 0) ?DE
        = ?DE\<lparr>opened := opened ?DE @ (if link (?E ! 0) = [] then [] else [link (?E ! 0)])\<rparr>"
    "double_click_image (news_widgets ?DE ! 0) ?DE
        = (if image_fetched offline (?E ! 0)
           then ?DE\<lparr>opened := opened ?DE @ (if link (?E ! 0) = [] then [] else [link (?E ! 0)])\<rparr>
           else ?DE)"
    using link_activation [of 0 ?E offline undecodable MainThread initUI] le by blast+
  have a: "opened (double_click_title (news_widgets ?DA ! 0) ?DA) = [''http://a'']"
    "opened (double_click_image (news_widgets ?DA ! 0) ?DA) = [''http://a'']"
    unfolding ia using f(1) by (simp_all add: o)
  have e: "opened (double_click_title (news_widgets ?DE ! 0) ?DE) = []"
    "opened (double_click_image (news_widgets ?DE ! 0) ?DE) = []"
    unfolding ie using f(2) by (simp_all add: o)
  from la le a e sw sn si show ?thesis by blast
qed

section \<open>Keys\<close>

lemma update_highlight_fields [simp]:
  "news_widgets (update_highlight a) = news_widgets a"
  "selected_index (update_highlight a) = selected_index a"
  "allocated (update_highlight a) = allocated a"
  "threads (update_highlight a) = threads a"
  "opened (update_highlight a) = opened a"
  "network (update_highlight a) = network a"
  by (simp_all add: update_highlight_def)

lemma scroll_to_selected_in_range:
  "0 \<le> selected_index a \<Longrightarrow> selected_index a < int (length (news_widgets a)) \<Longrightarrow>
   scroll_to_selected a = Inr (a\<lparr>ensured_visible := Some (news_widgets a ! nat (selected_index a))\<rparr>)"
  by (simp add: scroll_to_selected_def py_getitem_def)

lemma key_down_step:
  assumes "selection_valid a"
  shows "\<exists>a'. keyPressEvent Key_Down a = Inr a' \<and> news_widgets a' = news_widgets a
      \<and> selected_index a' = min (selected_index a + 1) (max 0 (int (length (news_widgets a)) - 1))"
proof (cases "selected_index a < int (length (news_widgets a)) - 1")
  case True
  let ?b = "update_highlight (a\<lparr>selected_index := selected_index a + 1\<rparr>)"
  have "0 \<le> selected_index ?b" "selected_index ?b < int (length (news_widgets ?b))"
    using assms True by (simp_all add: selection_valid_def)
  from scroll_to_selected_in_range [OF this] True show ?thesis
    by simp
next
  case False
  with assms show ?thesis by (auto simp: selection_valid_def)
qed

lemma key_up_step:
  assumes "selection_valid a"
  shows "\<exists>a'. keyPressEvent Key_Up a = Inr a' \<and> news_widgets a' = news_widgets a
      \<and> selected_index a' = max 0 (selected_index a - 1)"
proof (cases "selected_index a > 0")
  case True
  let ?b = "update_highlight (a\<lparr>selected_index := selected_index a - 1\<rparr>)"
  have "0 \<le> selected_index ?b" "selected_index ?b < int (length (news_widgets ?b))"
    using assms True by (simp_all add: selection_valid_def)
  from scroll_to_selected_in_range [OF this] True show ?thesis
    by simp
next
  case False
  with assms show ?thesis by (auto simp: selection_valid_def)
qed

lemma key_presses_down:
  "selection_valid a \<Longrightarrow>
   \<exists>a'. key_presses Key_Down n a = Inr a' \<and> news_widgets a' = news_widgets a
      \<and> selected_index a' = min (selected_index a + int n) (max 0 (int (length (news_widgets a)) - 1))"
proof (induction n arbitrary: a)
  case 0
  then show ?case by (auto simp: selection_valid_def)
next
  case (Suc n)
  from key_down_step [OF Suc.prems] obtain b where
    b: "keyPressEvent Key_Down a = Inr b" "news_widgets b = news_widgets a"
      "selected_index b = min (selected_index a + 1) (max 0 (int (length (news_widgets a)) - 1))"
    by blast
  have vb: "selection_valid b"
    using Suc.prems b by (auto simp: selection_valid_def)
  from Suc.IH [OF vb] obtain c where
    c: "key_presses Key_Down n b = Inr c" "news_widgets c = news_widgets b"
      "selected_index c = min (selected_index b + int n) (max 0 (int (length (news_widgets b)) - 1))"
    by blast
  show ?case
    using b c by (auto simp: min_def max_def)
qed

lemma key_presses_up:
  "selection_valid a \<Longrightarrow>
   \<exists>a'. key_presses Key_Up n a = Inr a' \<and> news_widgets a' = news_widgets a
      \<and> selected_index a' = max 0 (selected_index a - int n)"
proof (induction n arbitrary: a)
  case 0
  then show ?case by (auto simp: selection_valid_def)
next
  case (Suc n)
  from key_up_step [OF Suc.prems] obtain b where
    b: "keyPressEvent Key_Up a = Inr b" "news_widgets b = news_widgets a"
      "selected_index b = max 0 (selected_index a - 1)"
    by blast
  have vb: "selection_valid b"
    using Suc.prems b by (auto simp: selection_valid_def)
  from Suc.IH [OF vb] obtain c where
    c: "key_presses Key_Up n b = Inr c" "news_widgets c = news_widgets b"
      "selected_index c = max 0 (selected_index b - int n)"
    by blast
  show ?case
    using b c by (auto simp: min_def max_def)
qed

lemma display_news_with_selection_valid:
  assumes "creates_widget il create" and "items \<noteq> [] \<or> selected_index a = 0"
  shows "selection_valid (display_news_with create items a)"
  using assms(2) display_news_with_spec(1,3) [OF assms(1), of items a]
  by (auto simp: selection_valid_def)

lemma keyPressEvent_selection_valid:
  assumes "selection_valid a"
  shows "\<exists>a'. keyPressEvent k a = Inr a' \<and> selection_valid a'"
proof (cases k)
  case Key_Down
  with key_down_step [OF assms] assms show ?thesis
    by (auto simp: selection_valid_def)
next
  case Key_Up
  with key_up_step [OF assms] assms show ?thesis
    by (auto simp: selection_valid_def)
next
  case Key_Other
  with assms show ?thesis by simp
qed

text \<open>
  Claim C5. From a valid selection, \<open>n\<close> presses of the down key never raise, keep the
  rows, and leave the selection at the smaller of the start plus \<open>n\<close> and the last
  index; so from index 0 with \<open>K\<close> rows the selection is \<open>K - 1\<close> after \<open>K - 1\<close>
  presses and stays there. Presses of the up key leave it at the larger of the start
  minus \<open>n\<close> and 0. The selection never wraps around. The key handler is the same text
  in both programs.
\<close>

theorem selection_moves_clamped:
  assumes "0 \<le> selected_index a"
    and "selected_index a \<le> max 0 (int (length (news_widgets a)) - 1)"
  shows "(\<exists>a'. key_presses Key_Down n a = Inr a' \<and> news_widgets a' = news_widgets a
           \<and> selected_index a'
              = min (selected_index a + int n) (max 0 (int (length (news_widgets a)) - 1)))
       \<and> (\<exists>a'. key_presses Key_Up n a = Inr a' \<and> news_widgets a' = news_widgets a
           \<and> selected_index a' = max 0 (selected_index a - int n))"
  using key_presses_down [of a n] key_presses_up [of a n] assms
  by (simp add: selection_valid_def)

theorem selection_moves_clamped_witness:
  "0 \<le> selected_index (display_news offline undecodable MainThread
      [\<lparr>title = ''A'', link = ''a'', image_url = None\<rparr>,
       \<lparr>title = ''B'', link = ''b'', image_url = None\<rparr>,
       \<lparr>title = ''C'', link = ''c'', image_url = None\<rparr>] initUI)
   \<and> selected_index (display_news offline undecodable MainThread
      [\<lparr>title = ''A'', link = ''a'', image_url = None\<rparr>,
       \<lparr>title = ''B'', link = ''b'', image_url = None\<rparr>,
       \<lparr>title = ''C'', link = ''c'', image_url = None\<rparr>] initUI)
     \<le> max 0 (int (length (news_widgets (display_news offline undecodable MainThread
      [\<lparr>title = ''A'', link = ''a'', image_url = None\<rparr>,
       \<lparr>title = ''B'', link = ''b'', image_url = None\<rparr>,
       \<lparr>title = ''C'', link = ''c'', image_url = None\<rparr>] initUI))) - 1)
   \<and> (\<exists>a'. key_presses Key_Down 2 (display_news offline undecodable MainThread
      [\<lparr>title = ''A'', link = ''a'', image_url = None\<rparr>,
       \<lparr>title = ''B'', link = ''b'', image_url = None\<rparr>,
       \<lparr>title = ''C'', link = ''c'', image_url = None\<rparr>] initUI) = Inr a'
        \<and> selected_index a' = 2)
   \<and> (\<exists>a'. key_presses Key_Down 7 (display_news offline undecodable MainThread
      [\<lparr>title = ''A'', link = ''a'', image_url = None\<rparr>,
       \<lparr>title = ''B'', link = ''b'', image_url = None\<rparr>,
       \<lparr>title = ''C'', link = ''c'', image_url = None\<rparr>] initUI) = Inr a'
        \<and> selected_index a' = 2)
   \<and> (\<exists>a'. key_presses Key_Up 1 (display_news offline undecodable MainThread
      [\<lparr>title = ''A'', link = ''a'', image_url = None\<rparr>,
       \<lparr>title = ''B'', link = ''b'', image_url = None\<rparr>,
       \<lparr>title = ''C'', link = ''c'', image_url = None\<rparr>] initUI) = Inr a'
        \<and> selected_index a' = 0)"
proof -
  let ?a = "display_news offline undecodable MainThread
      [\<lparr>title = ''A'', link = ''a'', image_url = None\<rparr>,
       \<lparr>title = ''B'', link = ''b'', image_url = None\<rparr>,
       \<lparr>title = ''C'', link = ''c'', image_url = None\<rparr>] initUI"
  have s: "selected_index ?a = 0" by code_simp
  have l: "length (news_widgets ?a) = 3" by code_simp
  have h1: "0 \<le> selected_index ?a" and h2: "selected_index ?a \<le> max 0 (int (length (news_widgets ?a)) - 1)"
    by (simp_all add: s l)
  have d2: "\<exists>a'. key_presses Key_Down 2 ?a = Inr a' \<and> selected_index a' = 2"
    using selection_moves_clamped [OF h1 h2, of 2] by (auto simp: s l)
  have d7: "\<exists>a'. key_presses Key_Down 7 ?a = Inr a' \<and> selected_index a' = 2"
    using selection_moves_clamped [OF h1 h2, of 7] by (auto simp: s l)
  have u1: "\<exists>a'. key_presses Key_Up 1 ?a = Inr a' \<and> selected_index a' = 0"
    using selection_moves_clamped [OF h1 h2, of 1] by (auto simp: s l)
  show ?thesis
    using h1 h2 d2 d7 u1 by blast
qed

section \<open>Images\<close>

lemma set_image_label:
  "widgets a lb = Some wd \<Longrightarrow>
   \<exists>a' wd'. set_image lb img l a = Inr a' \<and> widgets a' lb = Some wd'
     \<and> label_content (image_label wd') =
         (if isNull img then Text ''No image available''
          else Pixmap (Scaled img 100 100 KeepAspectRatio))"
  by (simp add: set_image_def scaled_def)

lemma load_image_run_emits:
  "\<exists>img requests. load_image_run http dec th t = (Inr [(img, thread_link t)], requests)
      \<and> (\<forall>r \<in> set requests. fst r = th)
      \<and> (thread_image_url t = None \<longrightarrow> img = NullPixmap)
      \<and> (thread_image_url t = Some [] \<longrightarrow> img = NullPixmap)
      \<and> (\<forall>u e. thread_image_url t = Some u \<and> http u = Inl e \<longrightarrow> img = NullPixmap)
      \<and> (\<forall>u r. thread_image_url t = Some u \<and> http u = Inr r \<and> status_code r \<noteq> 200
            \<longrightarrow> img = NullPixmap)
      \<and> (\<forall>u r. thread_image_url t = Some u \<and> http u = Inr r \<and> \<not> dec (content r)
            \<longrightarrow> img = NullPixmap)
      \<and> (\<forall>u r. thread_image_url t = Some u \<and> u \<noteq> [] \<and> http u = Inr r \<and> status_code r = 200
              \<and> dec (content r) \<longrightarrow> img = Loaded (content r))"
  by (auto simp: load_image_run_def load_image_try_def loadFromData_def
      split: option.splits sum.splits)

text \<open>
  Claim C4. When an image thread of \<^verbatim>\<open>PostNewsTrial.py\<close> finishes, \<^verbatim>\<open>run\<close> raises
  nothing and emits exactly one pixmap with the thread's link. The pixmap is null when
  the URL is \<^verbatim>\<open>None\<close> or empty, when the request raises, when the status is not 200
  and when the bytes do not decode, and then the row shows the text
  \<^verbatim>\<open>No image available\<close>. With a URL, status 200 and bytes that decode, it is the
  decoded image and the row shows it scaled with \<^verbatim>\<open>scaled(100, 100, Qt.KeepAspectRatio)\<close>.
\<close>

theorem image_load_outcomes:
  assumes "k < length (threads a)"
    and "widgets a (thread_label (threads a ! k)) = Some wd"
  shows "\<exists>img a' wd'.
      fst (load_image_run http dec WorkerThread (threads a ! k))
        = Inr [(img, thread_link (threads a ! k))]
    \<and> image_thread_finishes http dec k a = Inr a'
    \<and> widgets a' (thread_label (threads a ! k)) = Some wd'
    \<and> (isNull img \<longrightarrow> label_content (image_label wd') = Text ''No image available'')
    \<and> (\<not> isNull img \<longrightarrow>
          label_content (image_label wd') = Pixmap (Scaled img 100 100 KeepAspectRatio))
    \<and> (thread_image_url (threads a ! k) = None \<longrightarrow> img = NullPixmap)
    \<and> (thread_image_url (threads a ! k) = Some [] \<longrightarrow> img = NullPixmap)
    \<and> (\<forall>u e. thread_image_url (threads a ! k) = Some u \<and> http u = Inl e \<longrightarrow> img = NullPixmap)
    \<and> (\<forall>u r. thread_image_url (threads a ! k) = Some u \<and> http u = Inr r
          \<and> status_code r \<noteq> 200 \<longrightarrow> img = NullPixmap)
    \<and> (\<forall>u r. thread_image_url (threads a ! k) = Some u \<and> http u = Inr r
          \<and> \<not> dec (content r) \<longrightarrow> img = NullPixmap)
    \<and> (\<forall>u r. thread_image_url (threads a ! k) = Some u \<and> u \<noteq> [] \<and> http u = Inr r
          \<and> status_code r = 200 \<and> dec (content r) \<longrightarrow> img = Loaded (content r))"
proof -
  let ?t = "threads a ! k"
  obtain img requests where
    all: "load_image_run http dec WorkerThread ?t = (Inr [(img, thread_link ?t)], requests)
      \<and> (\<forall>r \<in> set requests. fst r = WorkerThread)
      \<and> (thread_image_url ?t = None \<longrightarrow> img = NullPixmap)
      \<and> (thread_image_url ?t = Some [] \<longrightarrow> img = NullPixmap)
      \<and> (\<forall>u e. thread_image_url ?t = Some u \<and> http u = Inl e \<longrightarrow> img = NullPixmap)
      \<and> (\<forall>u r. thread_image_url ?t = Some u \<and> http u = Inr r \<and> status_code r \<noteq> 200
            \<longrightarrow> img = NullPixmap)
      \<and> (\<forall>u r. thread_image_url ?t = Some u \<and> http u = Inr r \<and> \<not> dec (content r)
            \<longrightarrow> img = NullPixmap)
      \<and> (\<forall>u r. thread_image_url ?t = Some u \<and> u \<noteq> [] \<and> http u = Inr r \<and> status_code r = 200
              \<and> dec (content r) \<longrightarrow> img = Loaded (content r))"
    using load_image_run_emits [of http dec WorkerThread ?t] by (elim exE) (erule that)
  then have r: "load_image_run http dec WorkerThread ?t = (Inr [(img, thread_link ?t)], requests)"
    by (rule conjunct1)
  let ?b = "a\<lparr>threads := take k (threads a) @ drop (Suc k) (threads a),
             network := network a @ requests\<rparr>"
  have "widgets ?b (thread_label ?t) = Some wd"
    using assms(2) by simp
  from set_image_label [OF this, of img "thread_link ?t"] obtain a' wd' where
    w: "set_image (thread_label ?t) img (thread_link ?t) ?b = Inr a'"
      "widgets a' (thread_label ?t) = Some wd'"
      "label_content (image_label wd') =
         (if isNull img then Text ''No image available''
          else Pixmap (Scaled img 100 100 KeepAspectRatio))"
    by blast
  have f: "image_thread_finishes http dec k a = Inr a'"
    using assms(1) by (simp add: image_thread_finishes_def r w(1))
  note rest = all [THEN conjunct2, THEN conjunct2]
  have fr: "fst (load_image_run http dec WorkerThread ?t) = Inr [(img, thread_link ?t)]"
    by (simp add: r)
  have n: "isNull img \<longrightarrow> label_content (image_label wd') = Text ''No image available''"
    and p: "\<not> isNull img \<longrightarrow>
          label_content (image_label wd') = Pixmap (Scaled img 100 100 KeepAspectRatio)"
    by (simp_all add: w(3))
  from fr f w(2) n p rest show ?thesis
    by (intro exI [of _ img] exI [of _ a'] exI [of _ wd']) (rule conjI, assumption)+
qed

theorem image_load_outcomes_witness:
  "0 < length (threads (snd (create_news_widget_started
        \<lparr>title = ''A'', link = ''a'', image_url = Some ''u''\<rparr> initUI)))
   \<and> shown_image 0 (snd (create_news_widget_started
        \<lparr>title = ''A'', link = ''a'', image_url = Some ''u''\<rparr> initUI))
      = Some (Text ''Loading image...'')
   \<and> observe (shown_image 0) (image_thread_finishes not_found decodable 0
        (snd (create_news_widget_started
          \<lparr>title = ''A'', link = ''a'', image_url = Some ''u''\<rparr> initUI)))
      = Some (Some (Text ''No image available''))
   \<and> observe (shown_image 0) (image_thread_finishes (serves [1, 2, 3]) decodable 0
        (snd (create_news_widget_started
          \<lparr>title = ''A'', link = ''a'', image_url = Some ''u''\<rparr> initUI)))
      = Some (Some (Pixmap (Scaled (Loaded [1, 2, 3]) 100 100 KeepAspectRatio)))"
proof -
  let ?a = "snd (create_news_widget_started
        \<lparr>title = ''A'', link = ''a'', image_url = Some ''u''\<rparr> initUI)"
  have h1: "0 < length (threads ?a)" by code_simp
  have t: "thread_image_url (threads ?a ! 0) = Some ''u''" "thread_label (threads ?a ! 0) = 0"
    by code_simp+
  have s0: "shown_image 0 ?a = Some (Text ''Loading image...'')"
    by code_simp
  then obtain wd where "widgets ?a 0 = Some wd"
    by (auto simp: shown_image_def)
  then have h2: "widgets ?a (thread_label (threads ?a ! 0)) = Some wd"
    by (simp add: t)
  have nf: "observe (shown_image 0) (image_thread_finishes not_found decodable 0 ?a)
      = Some (Some (Text ''No image available''))"
    using image_load_outcomes [OF h1 h2, of not_found decodable]
    by (auto simp: t not_found_def observe_def shown_image_def)
  have ok: "observe (shown_image 0) (image_thread_finishes (serves [1, 2, 3]) decodable 0 ?a)
      = Some (Some (Pixmap (Scaled (Loaded [1, 2, 3]) 100 100 KeepAspectRatio)))"
    using image_load_outcomes [OF h1 h2, of "serves [1, 2, 3]" decodable]
    by (auto simp: t serves_def decodable_def observe_def shown_image_def)
  from h1 s0 nf ok show ?thesis by simp
qed

section \<open>Runs of the program\<close>

lemma scroll_to_selected_fields:
  "scroll_to_selected a = Inr a' \<Longrightarrow>
   news_widgets a' = news_widgets a \<and> selected_index a' = selected_index a
   \<and> network a' = network a"
  by (auto simp: scroll_to_selected_def split: sum.splits)

lemma keyPressEvent_fields:
  "keyPressEvent k a = Inr a' \<Longrightarrow> news_widgets a' = news_widgets a \<and> network a' = network a"
  by (cases k) (auto split: if_splits dest: scroll_to_selected_fields)

lemma double_click_fields [simp]:
  "news_widgets (double_click_title w a) = news_widgets a"
  "selected_index (double_click_title w a) = selected_index a"
  "network (double_click_title w a) = network a"
  "news_widgets (double_click_image w a) = news_widgets a"
  "selected_index (double_click_image w a) = selected_index a"
  "network (double_click_image w a) = network a"
  by (simp_all add: double_click_title_def double_click_image_def double_click_def open_link_def
      split: option.splits)

lemma deferred_delete_fields [simp]:
  "news_widgets (deferred_delete a) = news_widgets a"
  "selected_index (deferred_delete a) = selected_index a"
  "network (deferred_delete a) = network a"
  by (simp_all add: deferred_delete_def)

lemma handle_event_valid:
  assumes "selection_valid a"
  shows "\<exists>a'. handle_event ev a = Inr a' \<and> selection_valid a'
           \<and> news_widgets a' = news_widgets a \<and> network a' = network a"
proof (cases ev)
  case (KeyPressed k)
  from keyPressEvent_selection_valid [OF assms, of k] obtain a' where
    a': "keyPressEvent k a = Inr a'" "selection_valid a'" by blast
  with keyPressEvent_fields [OF a'(1)] KeyPressed show ?thesis by simp
next
  case (TitleDoubleClicked w)
  with assms show ?thesis by (simp add: selection_valid_def)
next
  case (ImageDoubleClicked w)
  with assms show ?thesis by (simp add: selection_valid_def)
qed

lemma run_events_valid:
  "selection_valid a \<Longrightarrow>
   \<exists>a'. run_events evs a = Inr a' \<and> selection_valid a'
      \<and> news_widgets a' = news_widgets a \<and> network a' = network a"
proof (induction evs arbitrary: a)
  case Nil
  then show ?case by simp
next
  case (Cons ev evs)
  from handle_event_valid [OF Cons.prems, of ev] obtain b where
    b: "handle_event ev a = Inr b" "selection_valid b" "news_widgets b = news_widgets a"
      "network b = network a" by blast
  from Cons.IH [OF b(2)] obtain c where
    c: "run_events evs b = Inr c" "selection_valid c" "news_widgets c = news_widgets b"
      "network c = network b" by blast
  show ?case
    using b c by simp
qed

lemma create_image_label_requests:
  "snd (create_image_label http dec th item) = map (Pair th) (image_urls [item])"
  by (simp add: create_image_label_def image_urls_def split: option.splits sum.splits)

lemma image_urls_Cons: "image_urls (item # items) = image_urls [item] @ image_urls items"
  by (simp add: image_urls_def)

lemma items_loop_network:
  "network (items_loop (create_news_widget http dec th) items a)
     = network a @ map (Pair th) (image_urls items)"
proof (induction items arbitrary: a)
  case Nil
  show ?case by (simp add: image_urls_def)
next
  case (Cons item items)
  obtain il requests where c: "create_image_label http dec th item = (il, requests)"
    by (cases "create_image_label http dec th item")
  with create_image_label_requests [of http dec th item]
  have r: "requests = map (Pair th) (image_urls [item])" by simp
  show ?case
    by (subst image_urls_Cons) (simp add: create_news_widget_def c Cons.IH r)
qed

lemma display_news_network:
  "network (display_news http dec th items a) = network a @ map (Pair th) (image_urls items)"
  by (simp add: display_news_def display_news_with_def Let_def items_loop_network)

lemma selection_valid_initUI: "selection_valid initUI" "news_widgets initUI = []" "network initUI = []"
  by (simp_all add: selection_valid_def initUI_def)

lemma fetch_news_spec:
  assumes "selected_index a = 0"
  shows "\<exists>news_items a'. run bs (feedparser_parse res) = Inr [news_items]
     \<and> fetch_news bs http dec res a = Inr a' \<and> selection_valid a'
     \<and> network a' = network a @ (WorkerThread, feed_url) # map (Pair MainThread) (image_urls news_items)"
proof -
  obtain p where p: "run bs (feedparser_parse res) = Inr [p]"
    using run_with_total [of "extract_image_url bs" "feedparser_parse res"] by (auto simp: run_def)
  let ?a0 = "a\<lparr>network := network a @ [(WorkerThread, feed_url)]\<rparr>"
  have f: "fetch_news bs http dec res a = Inr (deferred_delete (display_news http dec MainThread p ?a0))"
    by (simp add: fetch_news_def p slot_thread_def)
  have "selection_valid (display_news_with (create_news_widget http dec MainThread) p ?a0)"
    by (rule display_news_with_selection_valid [OF creates_widget_sync]) (simp add: assms)
  then have v: "selection_valid (deferred_delete (display_news http dec MainThread p ?a0))"
    by (simp add: selection_valid_def display_news_def)
  show ?thesis
    using p f v by (simp add: display_news_network)
qed

lemma program_spec:
  "\<exists>news_items a. run bs (feedparser_parse res) = Inr [news_items]
     \<and> program bs http dec before res after = Inr a \<and> selection_valid a
     \<and> network a = (WorkerThread, feed_url) # map (Pair MainThread) (image_urls news_items)"
proof -
  from run_events_valid [OF selection_valid_initUI(1), of before] obtain a0 where
    a0: "run_events before initUI = Inr a0" "selection_valid a0" "news_widgets a0 = []"
      "network a0 = []"
    by (auto simp: selection_valid_initUI)
  from a0(2,3) have z: "selected_index a0 = 0" by (simp add: selection_valid_def)
  from fetch_news_spec [OF z, of bs res http dec] obtain p a1 where
    a1: "run bs (feedparser_parse res) = Inr [p]" "fetch_news bs http dec res a0 = Inr a1"
      "selection_valid a1"
      "network a1 = network a0 @ (WorkerThread, feed_url) # map (Pair MainThread) (image_urls p)"
    by blast
  from run_events_valid [OF a1(3), of after] obtain a2 where
    a2: "run_events after a1 = Inr a2" "selection_valid a2" "network a2 = network a1"
    by blast
  show ?thesis
    using a0 a1 a2 by (simp add: program_def)
qed

lemma fetch_news_trial_spec:
  assumes "selection_valid a" and "news_widgets a = []"
  shows "(\<exists>a'. fetch_news_trial bs res a = Inr a' \<and> selection_valid a')
     \<or> fetch_news_trial bs res a = Inl (Aborted ''QThread: Destroyed while thread is still running'')"
proof -
  obtain p where p: "run_trial bs (feedparser_parse res) = Inr [p]"
    using run_with_total [of "extract_image_url_trial bs" "feedparser_parse res"]
    by (auto simp: run_trial_def)
  show ?thesis
  proof (cases p)
    case Nil
    with assms show ?thesis
      by (simp add: fetch_news_trial_def p display_news_trial_Nil selection_valid_def)
  next
    case (Cons item items)
    then show ?thesis
      by (simp add: fetch_news_trial_def p display_news_trial_Cons)
  qed
qed

lemma program_trial_spec:
  "(\<exists>a. program_trial bs before res after = Inr a \<and> selection_valid a)
   \<or> program_trial bs before res after
       = Inl (Aborted ''QThread: Destroyed while thread is still running'')"
proof -
  from run_events_valid [OF selection_valid_initUI(1), of before] obtain a0 where
    a0: "run_events before initUI = Inr a0" "selection_valid a0" "news_widgets a0 = []"
    by (auto simp: selection_valid_initUI)
  from fetch_news_trial_spec [OF a0(2,3), of bs res] show ?thesis
  proof
    assume "\<exists>a'. fetch_news_trial bs res a0 = Inr a' \<and> selection_valid a'"
    then obtain a1 where a1: "fetch_news_trial bs res a0 = Inr a1" "selection_valid a1" by blast
    from run_events_valid [OF a1(2), of after] obtain a2 where
      "run_events after a1 = Inr a2" "selection_valid a2" by blast
    with a0 a1 show ?thesis by (simp add: program_trial_def)
  next
    assume "fetch_news_trial bs res a0
      = Inl (Aborted ''QThread: Destroyed while thread is still running'')"
    with a0 show ?thesis by (simp add: program_trial_def)
  qed
qed

text \<open>
  Claim C10. A run of either program is any sequence of key presses and double clicks
  while the fetch is in flight, the completion of the one fetch that the program
  starts, whatever the feed holds, also nothing, and any sequence of key presses and
  double clicks afterwards. No run raises an exception, so every access
  \<^verbatim>\<open>news_widgets[selected_index]\<close> made by \<^verbatim>\<open>scroll_to_selected\<close> is in bounds, and the
  selection index is valid in the state reached. There is no later fetch that could
  empty the rows under a selection greater than zero. \<^verbatim>\<open>PostNewsTrial.py\<close> behaves so
  or is aborted while it builds its first row; it never raises \<^verbatim>\<open>IndexError\<close>.
\<close>

theorem selection_access_in_bounds:
  "(\<exists>a. run_events before initUI = Inr a \<and> selection_valid a)
   \<and> (\<exists>a. program bs http dec before res after = Inr a \<and> selection_valid a)
   \<and> ((\<exists>a. program_trial bs before res after = Inr a \<and> selection_valid a)
       \<or> program_trial bs before res after
           = Inl (Aborted ''QThread: Destroyed while thread is still running''))"
  using run_events_valid [OF selection_valid_initUI(1), of before]
    program_spec [of bs res http dec before after] program_trial_spec [of bs before res after]
  by blast




end
